theory Spec2Isabelle
  imports Main
begin

text \<open>
  A model of the notification route of the Telegram notifier worker (routes/notify.ts in its
  version with typed events, the file src/unnamed/part_004, whose line numbers are the ones
  quoted below) and of \<^verbatim>\<open>escapeMarkdownV2\<close> (utils/misc.ts), and the properties of
  its specification checked against it.

  The handler is a function of the request and of the environment. What it calls outside the
  repository is a parameter of the model: \<^verbatim>\<open>removeMarkdown\<close> of the package
  remove-markdown, the D1 database behind \<^verbatim>\<open>env.DB\<close>, and the network behind
  \<^verbatim>\<open>fetch\<close>. The handler's effects are part of its result: the statements it runs
  on the database and, wave by wave, what each delivery task does.
\<close>

section \<open>Strings\<close>

text \<open>
  The worker is TypeScript. A JavaScript string is a sequence of code units; it is modelled
  as a \<open>string\<close> with one \<open>char\<close> per code unit, so \<open>length\<close> is the
  \<^verbatim>\<open>.length\<close> of the source and \<open>take n\<close> is \<^verbatim>\<open>.slice(0, n)\<close>;
  a \<open>char\<close> has 8 bits, so the strings of the model are those of code units below 256.
  The backslash cannot be written inside a string literal and is named.
\<close>

definition backslash :: char where
  "backslash = CHR 0x5C"

definition newline :: char where
  "newline = CHR 0x0A"

subsection \<open>\<^verbatim>\<open>escapeMarkdownV2\<close> (utils/misc.ts)\<close>

text \<open>
  The character class of the regular expression, member by member and in the order it is
  written: backslash, \<open>_ * [ ] ( ) ~ ` > #\<close>, then \<^verbatim>\<open>+-=\<close>, which inside a
  class is the range from \<open>+\<close> (0x2B) to \<open>=\<close> (0x3D), then \<open>| { } . !\<close>.
\<close>

definition escape_class :: "char \<Rightarrow> bool" where
  "escape_class c \<longleftrightarrow>
     c = CHR 0x5C \<or> c \<in> set ''_*[]()~`>#'' \<or>
     ((of_char (CHR ''+'') :: nat) \<le> of_char c \<and> (of_char c :: nat) \<le> of_char (CHR ''='')) \<or>
     c \<in> set ''|{}.!''"

text \<open>\<^verbatim>\<open>text.replace(/[...]/g, '\\$&')\<close>: every match is replaced by a backslash and itself.\<close>

fun escapeMarkdownV2 :: "string \<Rightarrow> string" where
  "escapeMarkdownV2 [] = []"
| "escapeMarkdownV2 (c # cs) =
     (if escape_class c then backslash # c # escapeMarkdownV2 cs
      else c # escapeMarkdownV2 cs)"

subsection \<open>\<^verbatim>\<open>trim\<close>, \<^verbatim>\<open>split\<close>, \<^verbatim>\<open>join\<close>\<close>

text \<open>
  \<^verbatim>\<open>String.prototype.trim\<close> removes white space and line terminators from both ends.
  Of the code units it removes, those below 256 are TAB, LF, VT, FF, CR, SP and NBSP.
\<close>

definition is_white_space :: "char \<Rightarrow> bool" where
  "is_white_space c \<longleftrightarrow>
     c \<in> set [CHR 0x09, CHR 0x0A, CHR 0x0B, CHR 0x0C, CHR 0x0D, CHR 0x20, CHR 0xA0]"

definition trim :: "string \<Rightarrow> string" where
  "trim s = rev (dropWhile is_white_space (rev (dropWhile is_white_space s)))"

text \<open>\<^verbatim>\<open>s.split(sep)\<close> for a one-character separator; the result is never empty.\<close>

fun split_on :: "char \<Rightarrow> string \<Rightarrow> string list" where
  "split_on sep [] = [[]]"
| "split_on sep (c # cs) =
     (if c = sep then [] # split_on sep cs
      else (case split_on sep cs of
              [] \<Rightarrow> [[c]]
            | l # ls \<Rightarrow> (c # l) # ls))"

fun join :: "string \<Rightarrow> string list \<Rightarrow> string" where
  "join sep [] = []"
| "join sep [x] = x"
| "join sep (x # y # ys) = x @ sep @ join sep (y # ys)"

section \<open>The message (routes/notify.ts)\<close>

definition MAX_DESCRIPTION_LENGTH :: nat where
  "MAX_DESCRIPTION_LENGTH = 500"

datatype NotifyType = ProposalCreated | ProposalExecuted | ProposalExecutionFailed | ProposalClosed

fun NotifyType_value :: "NotifyType \<Rightarrow> string" where
  "NotifyType_value ProposalCreated = ''proposal_created''"
| "NotifyType_value ProposalExecuted = ''proposal_executed''"
| "NotifyType_value ProposalExecutionFailed = ''proposal_execution_failed''"
| "NotifyType_value ProposalClosed = ''proposal_closed''"

text \<open>
  The JSON body of the request. \<open>type\<close>, \<open>apiKey\<close> and \<open>winningChoice\<close> may be absent
  (\<open>None\<close> is \<^verbatim>\<open>undefined\<close> or \<^verbatim>\<open>null\<close>): the handler has a
  default, a comparison and a truthiness test for them. The other fields are used as strings
  and are strings here: the handler reads the body as it comes, and a body that is not
  JSON, or one with a field of another type where a method of strings is called, makes it
  throw before it answers. Such requests are outside the model.
\<close>

record payload =
  type_field :: "string option"
  apiKey :: "string option"
  daoName :: string
  proposalTitle :: string
  proposalDescription :: string
  proposalId :: string
  daoUrl :: string
  url :: string
  winningChoice :: "string option"

text \<open>
  Lines 42 to 46. \<^verbatim>\<open>removeMarkdown\<close> belongs to the package remove-markdown,
  which is not part of the repository: it is a parameter.
\<close>

definition sanitizedDescription :: "(string \<Rightarrow> string) \<Rightarrow> string \<Rightarrow> string" where
  "sanitizedDescription removeMarkdown description =
     (let sanitized = removeMarkdown description
      in if length sanitized > MAX_DESCRIPTION_LENGTH
         then take MAX_DESCRIPTION_LENGTH sanitized @ ''...''
         else sanitized)"

text \<open>
  \<^verbatim>\<open>escapeMarkdownV2(sanitizedDescription).trim().split('\n').join('\n>')\<close>,
  the last interpolation of each of the four templates.
\<close>

definition quoted_description :: "string \<Rightarrow> string" where
  "quoted_description sanitized =
     join (newline # ''>'') (split_on newline (trim (escapeMarkdownV2 sanitized)))"

text \<open>
  \<^verbatim>\<open>winningChoice ? `\n>\n>Outcome: *${escapeMarkdownV2(winningChoice)}*` : ''\<close>;
  the empty string is falsy.
\<close>

definition outcome_line :: "string option \<Rightarrow> string" where
  "outcome_line choice =
     (case choice of
        None \<Rightarrow> []
      | Some w \<Rightarrow>
          if w = [] then []
          else ''\<newline>>\<newline>>Outcome: *'' @ escapeMarkdownV2 w @ ''*'')"

text \<open>
  The template literals of lines 52 to 105, quasi by quasi. In a template literal
  \<^verbatim>\<open>\\\<close> is one backslash and \<^verbatim>\<open>\n\<close> a line feed.
\<close>

definition notification_text :: "string \<Rightarrow> payload \<Rightarrow> string \<Rightarrow> string" where
  "notification_text type p sanitized =
     (if type = NotifyType_value ProposalCreated then
        ''_[Proposal '' @ escapeMarkdownV2 (proposalId p) @ '']('' @ url p @
        '') is open for voting in ['' @ escapeMarkdownV2 (daoName p) @ '']('' @ daoUrl p @
        '')'' @ [backslash] @ ''._\<newline>\<newline>>*'' @ escapeMarkdownV2 (proposalTitle p) @
        ''*\<newline>>\<newline>>'' @ quoted_description sanitized
      else if type = NotifyType_value ProposalExecuted then
        ''_[Proposal '' @ escapeMarkdownV2 (proposalId p) @ '']('' @ url p @
        '') in ['' @ escapeMarkdownV2 (daoName p) @ '']('' @ daoUrl p @
        '')'' @ [backslash] @ '' was passed and executed'' @ [backslash] @
        ''._\<newline>\<newline>>*'' @ escapeMarkdownV2 (proposalTitle p) @
        ''*\<newline>>\<newline>>'' @ quoted_description sanitized @
        outcome_line (winningChoice p)
      else if type = NotifyType_value ProposalExecutionFailed then
        ''_[Proposal '' @ escapeMarkdownV2 (proposalId p) @ '']('' @ url p @
        '') in ['' @ escapeMarkdownV2 (daoName p) @ '']('' @ daoUrl p @
        '')'' @ [backslash] @ '' was passed but failed to execute'' @ [backslash] @
        ''._\<newline>\<newline>>*'' @ escapeMarkdownV2 (proposalTitle p) @
        ''*\<newline>>\<newline>>'' @ quoted_description sanitized @
        outcome_line (winningChoice p)
      else if type = NotifyType_value ProposalClosed then
        ''_[Proposal '' @ escapeMarkdownV2 (proposalId p) @ '']('' @ url p @
        '') in ['' @ escapeMarkdownV2 (daoName p) @ '']('' @ daoUrl p @
        '')'' @ [backslash] @ '' was rejected and closed'' @ [backslash] @
        ''._\<newline>\<newline>>*'' @ escapeMarkdownV2 (proposalTitle p) @
        ''*\<newline>>\<newline>>'' @ quoted_description sanitized
      else [])"

section \<open>Numbers\<close>

text \<open>
  \<^verbatim>\<open>Number(chatId)\<close> makes an IEEE 754 double of a string. On the strings the
  registration store holds (routes/telegram.ts writes \<^verbatim>\<open>BigInt(id).toString()\<close>,
  an optional minus sign and decimal digits) the double is the integer nearest to the value
  the digits denote among those a double can hold, a tie going to the even significand (the
  language leaves the last bit open past 20 significant digits; V8, which runs the worker,
  rounds correctly at any length). An integer-valued double is held as its value; \<open>Other\<close> is NaN or the value of a literal
  form that is not modelled (a fraction, an exponent, a radix prefix, \<^verbatim>\<open>Infinity\<close>).
\<close>

datatype jsnumber = Finite int | PosInfinity | NegInfinity | Other

function bit_length :: "nat \<Rightarrow> nat" where
  "bit_length n = (if n = 0 then 0 else Suc (bit_length (n div 2)))"
  by pat_completeness auto
termination
  by (relation "measure id") auto

declare bit_length.simps [simp del]

text \<open>
  A double has a significand of 53 bits: a magnitude of more bits loses its low \<open>e\<close> bits,
  rounded half to even, and a result of \<open>2 ^ 1024\<close> or more is an infinity.
\<close>

definition round_to_double :: "int \<Rightarrow> jsnumber" where
  "round_to_double n =
     (let m = nat \<bar>n\<bar>;
          e = bit_length m - 53;
          q = m div 2 ^ e;
          r = m mod 2 ^ e;
          q' = (if 2 ^ e < 2 * r \<or> (2 * r = 2 ^ e \<and> odd q) then q + 1 else q);
          v = q' * 2 ^ e
      in if 2 ^ 1024 \<le> v then (if n < 0 then NegInfinity else PosInfinity)
         else Finite (if n < 0 then - int v else int v))"

definition is_digit :: "char \<Rightarrow> bool" where
  "is_digit c \<longleftrightarrow> (of_char (CHR ''0'') :: nat) \<le> of_char c \<and> (of_char c :: nat) \<le> of_char (CHR ''9'')"

definition digit_value :: "char \<Rightarrow> nat" where
  "digit_value c = of_char c - of_char (CHR ''0'')"

definition digits_value :: "string \<Rightarrow> nat" where
  "digits_value ds = foldl (\<lambda>n c. 10 * n + digit_value c) 0 ds"

text \<open>The integer a decimal string denotes: an optional sign, then one digit or more.\<close>

definition decimal_integer :: "string \<Rightarrow> int option" where
  "decimal_integer s =
     (case s of
        [] \<Rightarrow> None
      | c # cs \<Rightarrow>
          if c = CHR ''-'' then
            (if cs \<noteq> [] \<and> list_all is_digit cs then Some (- int (digits_value cs)) else None)
          else if c = CHR ''+'' then
            (if cs \<noteq> [] \<and> list_all is_digit cs then Some (int (digits_value cs)) else None)
          else if list_all is_digit s then Some (int (digits_value s))
          else None)"

text \<open>White space around the literal is skipped, and the empty literal is zero.\<close>

definition Number :: "string \<Rightarrow> jsnumber" where
  "Number s =
     (let t = trim s
      in if t = [] then Finite 0
         else (case decimal_integer t of
                 Some n \<Rightarrow> round_to_double n
               | None \<Rightarrow> Other))"

section \<open>The registration store and the delivery endpoint\<close>

text \<open>
  A destination is the pair \<^verbatim>\<open>{chatId, messageThreadId}\<close> the lookup selects from
  a row of \<^verbatim>\<open>registrations\<close>; \<^verbatim>\<open>messageThreadId\<close> may be
  \<^verbatim>\<open>null\<close>.
\<close>

type_synonym destination = "string \<times> string option"

text \<open>A prepared statement: its SQL text and the values bound to \<open>?1\<close>, \<open>?2\<close>, ...\<close>

record statement =
  sql :: string
  binds :: "string list"

text \<open>
  The D1 binding, as far as \<^verbatim>\<open>notify\<close> uses it: what \<^verbatim>\<open>.all()\<close>
  gives as \<^verbatim>\<open>results\<close> for a statement, \<open>None\<close> when the field is absent.
\<close>

type_synonym d1_database = "statement \<Rightarrow> destination list option"

record Env =
  DB :: d1_database
  BOT_TOKEN :: string
  NOTIFY_API_KEY :: string

text \<open>
  \<^verbatim>\<open>fetch\<close> either resolves with a response, of which the handler reads the status
  and the text (\<open>None\<close> when reading the text rejects, which the handler turns into the empty
  string), or rejects with an error. The network is a parameter: for the destination at
  position \<open>j\<close> of the lookup result and its \<open>k\<close>-th attempt, counted from 1, \<open>net j k\<close>
  is what \<^verbatim>\<open>fetch\<close> does.
\<close>

datatype fetch_result = Resolved nat "string option" | Rejected string

type_synonym network = "nat \<Rightarrow> nat \<Rightarrow> fetch_result"

text \<open>The object given to \<^verbatim>\<open>JSON.stringify\<close> as the body of the request.\<close>

record sendMessage =
  chat_id :: jsnumber
  message_thread_id :: "jsnumber option"
  parse_mode :: string
  message_text :: string
  link_preview_is_disabled :: bool

text \<open>
  What one delivery task does, in order: a call of \<^verbatim>\<open>fetch\<close> with its URL and
  body, a line of \<^verbatim>\<open>console.log\<close> (destination, status, response text) or of
  \<^verbatim>\<open>console.error\<close> (destination, error).
\<close>

datatype io_event =
    Fetch string sendMessage
  | ConsoleLog destination nat string
  | ConsoleError destination string

text \<open>
  One task of \<^verbatim>\<open>batch.map\<close>: the destination it was started for, its events and
  what the callback returned.
\<close>

record delivery =
  target :: destination
  events :: "io_event list"
  returned :: "bool option"

definition BATCH_SIZE :: nat where
  "BATCH_SIZE = 10"

definition RETRIES :: nat where
  "RETRIES = 3"

definition sendMessage_url :: "Env \<Rightarrow> string" where
  "sendMessage_url env = ''https://api.telegram.org/bot'' @ BOT_TOKEN env @ ''/sendMessage''"

text \<open>Lines 133 to 143; the empty string is falsy, so is \<^verbatim>\<open>null\<close>.\<close>

definition sendMessage_body :: "string \<Rightarrow> destination \<Rightarrow> sendMessage" where
  "sendMessage_body text d =
     \<lparr>chat_id = Number (fst d),
      message_thread_id =
        (case snd d of
           None \<Rightarrow> None
         | Some thread \<Rightarrow> if thread = [] then None else Some (Number thread)),
      parse_mode = ''MarkdownV2'',
      message_text = text,
      link_preview_is_disabled = True\<rparr>"

text \<open>
  The loop \<^verbatim>\<open>for (let i = RETRIES; i > 0; i--)\<close> of lines 124 to 165, by recursion
  on \<open>i\<close>; the attempt made at \<open>i\<close> is attempt number \<open>RETRIES + 1 - i\<close>. A loop that
  ends without \<^verbatim>\<open>return\<close> leaves the callback's result \<^verbatim>\<open>undefined\<close>,
  which is \<open>None\<close>.
\<close>

fun attempts :: "(nat \<Rightarrow> fetch_result) \<Rightarrow> string \<Rightarrow> sendMessage \<Rightarrow> destination \<Rightarrow> nat \<Rightarrow> delivery" where
  "attempts fetch u b d 0 = \<lparr>target = d, events = [], returned = None\<rparr>"
| "attempts fetch u b d (Suc n) =
     (case fetch (RETRIES + 1 - Suc n) of
        Resolved status txt \<Rightarrow>
          \<lparr>target = d,
           events = [Fetch u b, ConsoleLog d status (case txt of None \<Rightarrow> [] | Some t \<Rightarrow> t)],
           returned = Some True\<rparr>
      | Rejected err \<Rightarrow>
          if 1 < Suc n then
            (let rest = attempts fetch u b d n
             in rest\<lparr>events := Fetch u b # events rest\<rparr>)
          else
            \<lparr>target = d,
             events = [Fetch u b, ConsoleError d err, ConsoleError d err],
             returned = Some False\<rparr>)"

text \<open>The callback of \<^verbatim>\<open>batch.map\<close> for the destination at position \<open>j\<close>.\<close>

definition deliver :: "network \<Rightarrow> Env \<Rightarrow> string \<Rightarrow> nat \<Rightarrow> destination \<Rightarrow> delivery" where
  "deliver net env text j d =
     attempts (net j) (sendMessage_url env) (sendMessage_body text d) d RETRIES"

text \<open>\<^verbatim>\<open>xs.slice(a, b)\<close> for \<open>0 \<le> a \<le> b\<close>, and the truthiness \<^verbatim>\<open>filter(Boolean)\<close> tests.\<close>

definition slice :: "'a list \<Rightarrow> nat \<Rightarrow> nat \<Rightarrow> 'a list" where
  "slice xs a b = take (b - a) (drop a xs)"

definition Boolean :: "bool option \<Rightarrow> bool" where
  "Boolean v \<longleftrightarrow> v = Some True"

text \<open>
  The loop of lines 118 to 170. \<^verbatim>\<open>await Promise.all(batch.map(...))\<close> starts one
  task for each destination of the batch and goes on when all of them have returned: the
  tasks of one batch are kept together as one wave, in the order of the batch, with no order
  between the events of two tasks of a wave; a wave is complete before the next one starts.
\<close>

function batch_loop :: "(nat \<Rightarrow> destination \<Rightarrow> delivery) \<Rightarrow> destination list \<Rightarrow> nat \<Rightarrow> nat \<Rightarrow> delivery list list \<Rightarrow> nat \<times> delivery list list" where
  "batch_loop send registrations i succeeded waves =
     (if i < length registrations then
        (let batch = slice registrations i (i + BATCH_SIZE);
             responses = map (\<lambda>(j, d). send (i + j) d) (enumerate 0 batch)
         in batch_loop send registrations (i + BATCH_SIZE)
              (succeeded + length (filter Boolean (map returned responses)))
              (waves @ [responses]))
      else (succeeded, waves))"
  by pat_completeness auto
termination
  by (relation "measure (\<lambda>(send, registrations, i, succeeded, waves). length registrations - i)")
    (auto simp: BATCH_SIZE_def)

declare batch_loop.simps [simp del]

section \<open>\<^verbatim>\<open>notify\<close>\<close>

text \<open>
  The request: the two path parameters (\<open>None\<close> when the router gave none) and the parsed
  JSON body.
\<close>

record request =
  param_chainId :: "string option"
  param_dao :: "string option"
  json :: payload

datatype json_value = JString string | JNumber nat | JBool bool

text \<open>utils/respond.ts; the body is kept as the object given to \<^verbatim>\<open>JSON.stringify\<close>.\<close>

record response =
  status :: nat
  body :: "(string \<times> json_value) list option"

definition respond :: "nat \<Rightarrow> (string \<times> json_value) list option \<Rightarrow> response" where
  "respond st obj = \<lparr>status = st, body = obj\<rparr>"

definition respondError :: "nat \<Rightarrow> string \<Rightarrow> response" where
  "respondError st error = respond st (Some [(''error'', JString error)])"

text \<open>
  What a call of \<^verbatim>\<open>notify\<close> leaves behind: its response, the statements it ran on
  the registration store, in order, and the waves of deliveries, in order.
\<close>

record outcome =
  resp :: response
  statements :: "statement list"
  waves :: "delivery list list"

definition returns :: "response \<Rightarrow> outcome" where
  "returns r = \<lparr>resp = r, statements = [], waves = []\<rparr>"

definition lookup_sql :: string where
  "lookup_sql = ''SELECT chatId, messageThreadId FROM registrations WHERE chainId = ?1 AND dao = ?2''"

definition notify :: "(string \<Rightarrow> string) \<Rightarrow> network \<Rightarrow> request \<Rightarrow> Env \<Rightarrow> outcome" where
  "notify removeMarkdown net request env =
     (case param_chainId request of
        None \<Rightarrow> returns (respondError 400 ''Missing `chainId`.'')
      | Some chainId \<Rightarrow>
     if chainId = [] then returns (respondError 400 ''Missing `chainId`.'')
     else
     (case param_dao request of
        None \<Rightarrow> returns (respondError 400 ''Missing `dao`.'')
      | Some dao \<Rightarrow>
     if dao = [] then returns (respondError 400 ''Missing `dao`.'')
     else
       (let p = json request;
            type = (case type_field p of
                      None \<Rightarrow> NotifyType_value ProposalCreated
                    | Some t \<Rightarrow> t);
            sanitized = sanitizedDescription removeMarkdown (proposalDescription p)
        in if apiKey p \<noteq> Some (NOTIFY_API_KEY env) then
             returns (respondError 401 ''Invalid API key.'')
           else
             (let text = notification_text type p sanitized
              in if text = [] then returns (respondError 400 ''Invalid notification type.'')
                 else
                   (let lookup = \<lparr>sql = lookup_sql, binds = [chainId, dao]\<rparr>;
                        registrations = (case DB env lookup of None \<Rightarrow> [] | Some rows \<Rightarrow> rows);
                        (succeeded, ws) = batch_loop (deliver net env text) registrations 0 0 []
                    in \<lparr>resp = respond 200 (Some [(''success'', JBool True),
                                                     (''count'', JNumber succeeded)]),
                        statements = [lookup],
                        waves = ws\<rparr>)))))"

section \<open>The order of events\<close>






section \<open>Notions for stating the properties\<close>

text \<open>
  The deliveries of a whole lookup result, destination by destination: \<open>send j d\<close> for the
  destination \<open>d\<close> at position \<open>j\<close>. The loop cuts this list into waves.
\<close>

definition all_deliveries :: "(nat \<Rightarrow> destination \<Rightarrow> delivery) \<Rightarrow> destination list \<Rightarrow> delivery list" where
  "all_deliveries send registrations = map (\<lambda>(j, d). send j d) (enumerate 0 registrations)"

text \<open>Consecutive slices of length \<open>n\<close>, the last one possibly shorter.\<close>

function chunks :: "nat \<Rightarrow> 'a list \<Rightarrow> 'a list list" where
  "chunks n xs = (if n = 0 \<or> xs = [] then [] else take n xs # chunks n (drop n xs))"
  by pat_completeness auto
termination
  by (relation "measure (\<lambda>(n, xs). length xs)") auto

declare chunks.simps [simp del]

text \<open>
  A call of \<^verbatim>\<open>fetch\<close> that came back with a response, whatever its status; the number
  of calls of \<^verbatim>\<open>fetch\<close> of a task; the number of the first of the three attempts that
  resolves, if any; and whether the delivery to the destination at position \<open>j\<close> succeeds.
\<close>

fun is_resolved :: "fetch_result \<Rightarrow> bool" where
  "is_resolved (Resolved st txt) = True"
| "is_resolved (Rejected err) = False"

fun is_Fetch :: "io_event \<Rightarrow> bool" where
  "is_Fetch (Fetch u b) = True"
| "is_Fetch (ConsoleLog d st txt) = False"
| "is_Fetch (ConsoleError d err) = False"

definition fetch_count :: "delivery \<Rightarrow> nat" where
  "fetch_count t = length (filter is_Fetch (events t))"

definition first_success :: "(nat \<Rightarrow> fetch_result) \<Rightarrow> nat option" where
  "first_success fetch =
     (if is_resolved (fetch 1) then Some 1
      else if is_resolved (fetch 2) then Some 2
      else if is_resolved (fetch 3) then Some 3
      else None)"

definition succeeds :: "network \<Rightarrow> nat \<Rightarrow> bool" where
  "succeeds net j \<longleftrightarrow> first_success (net j) \<noteq> None"

text \<open>
  The values of \<open>type\<close> the handler has a template for: one of the four of
  \<^verbatim>\<open>NotifyType\<close>, or none, which defaults to the first.
\<close>

definition accepted_type :: "string option \<Rightarrow> bool" where
  "accepted_type t \<longleftrightarrow>
     (case t of
        None \<Rightarrow> True
      | Some s \<Rightarrow> s \<in> set (map NotifyType_value
                    [ProposalCreated, ProposalExecuted, ProposalExecutionFailed, ProposalClosed]))"

text \<open>
  Names for three things the handler computes: the text of the message, the statement of the
  lookup and the registrations the lookup gives.
\<close>

definition message :: "(string \<Rightarrow> string) \<Rightarrow> payload \<Rightarrow> string" where
  "message removeMarkdown p =
     notification_text
       (case type_field p of None \<Rightarrow> NotifyType_value ProposalCreated | Some t \<Rightarrow> t)
       p (sanitizedDescription removeMarkdown (proposalDescription p))"

definition lookup :: "string \<Rightarrow> string \<Rightarrow> statement" where
  "lookup c d = \<lparr>sql = lookup_sql, binds = [c, d]\<rparr>"

definition registrations_of :: "Env \<Rightarrow> string \<Rightarrow> string \<Rightarrow> destination list" where
  "registrations_of env c d = (case DB env (lookup c d) of None \<Rightarrow> [] | Some rows \<Rightarrow> rows)"

text \<open>
  An example: an executed proposal, three registrations of which the first is reached at
  once, the second at the third attempt (with status 403) and the third never; and a lookup
  result of 25 registrations.
\<close>

definition example_payload :: payload where
  "example_payload =
     \<lparr>type_field = Some ''proposal_executed'',
      apiKey = Some ''secret'',
      daoName = ''My_DAO'',
      proposalTitle = ''Fund #1'',
      proposalDescription = ''Pay 1.5 to a-b'',
      proposalId = ''A-42'',
      daoUrl = ''https://daodao.zone/dao/x'',
      url = ''https://daodao.zone/dao/x/proposals/A-42'',
      winningChoice = Some ''Yes!''\<rparr>"

definition example_request :: request where
  "example_request =
     \<lparr>param_chainId = Some ''osmosis-1'', param_dao = Some ''dao1abc'', json = example_payload\<rparr>"

definition example_registrations :: "destination list" where
  "example_registrations = [(''100'', None), (''100'', Some ''7''), (''-1001234567890'', None)]"

definition example_env :: Env where
  "example_env =
     \<lparr>DB = (\<lambda>s. if s = lookup ''osmosis-1'' ''dao1abc'' then Some example_registrations else Some []),
      BOT_TOKEN = ''123:abc'',
      NOTIFY_API_KEY = ''secret''\<rparr>"

definition example_net :: network where
  "example_net j k =
     (if j = 0 then Resolved 200 (Some ''ok'')
      else if j = 1 then (if k < 3 then Rejected ''timeout'' else Resolved 403 None)
      else Rejected ''refused'')"



text \<open>
  How a MarkdownV2 reader takes a text, character by character: a backslash makes the next
  character a literal one, a reserved character that is not escaped is markup, any other
  character is literal. The reserved set is the one of the specification:
  \<^verbatim>\<open>\ _ * [ ] ( ) ~ ` > # + - = | { } . !\<close>.
\<close>

datatype token = Lit char | Markup char

definition reserved :: "char \<Rightarrow> bool" where
  "reserved c \<longleftrightarrow> c \<in> set (CHR 0x5C # ''_*[]()~`>#+-=|{}.!'')"

fun tokens :: "string \<Rightarrow> token list" where
  "tokens [] = []"
| "tokens [c] = [if reserved c then Markup c else Lit c]"
| "tokens (c # e # cs) =
     (if c = backslash then Lit e # tokens cs
      else (if reserved c then Markup c else Lit c) # tokens (e # cs))"

text \<open>A literal text in a quote block: every line feed is followed by the quote marker.\<close>

definition quoted_tokens :: "string \<Rightarrow> token list" where
  "quoted_tokens s =
     concat (map (\<lambda>c. if c = newline then [Lit newline, Markup (CHR ''>'')] else [Lit c]) s)"

text \<open>
  The words of the four announcements, as they read, and the pieces of a template around its
  two URLs.
\<close>

fun before_dao :: "NotifyType \<Rightarrow> string" where
  "before_dao ProposalCreated = '' is open for voting in ''"
| "before_dao ProposalExecuted = '' in ''"
| "before_dao ProposalExecutionFailed = '' in ''"
| "before_dao ProposalClosed = '' in ''"

fun after_dao :: "NotifyType \<Rightarrow> string" where
  "after_dao ProposalCreated = ''.''"
| "after_dao ProposalExecuted = '' was passed and executed.''"
| "after_dao ProposalExecutionFailed = '' was passed but failed to execute.''"
| "after_dao ProposalClosed = '' was rejected and closed.''"

fun has_outcome :: "NotifyType \<Rightarrow> bool" where
  "has_outcome ProposalCreated = False"
| "has_outcome ProposalExecuted = True"
| "has_outcome ProposalExecutionFailed = True"
| "has_outcome ProposalClosed = False"

definition outcome_tokens :: "NotifyType \<Rightarrow> string option \<Rightarrow> token list" where
  "outcome_tokens kind choice =
     (case choice of
        None \<Rightarrow> []
      | Some w \<Rightarrow>
          if has_outcome kind \<and> w \<noteq> [] then
            [Lit newline, Markup (CHR ''>''), Lit newline, Markup (CHR ''>'')] @
            map Lit ''Outcome: '' @ [Markup (CHR ''*'')] @ map Lit w @ [Markup (CHR ''*'')]
          else [])"

definition head_part :: "payload \<Rightarrow> string" where
  "head_part p = ''_[Proposal '' @ escapeMarkdownV2 (proposalId p) @ ''](''"

definition mid_part :: "NotifyType \<Rightarrow> payload \<Rightarrow> string" where
  "mid_part kind p = '')'' @ before_dao kind @ ''['' @ escapeMarkdownV2 (daoName p) @ ''](''"

fun raw_after_dao :: "NotifyType \<Rightarrow> string" where
  "raw_after_dao ProposalCreated = [backslash] @ ''.''"
| "raw_after_dao ProposalExecuted = [backslash] @ '' was passed and executed'' @ [backslash] @ ''.''"
| "raw_after_dao ProposalExecutionFailed =
     [backslash] @ '' was passed but failed to execute'' @ [backslash] @ ''.''"
| "raw_after_dao ProposalClosed = [backslash] @ '' was rejected and closed'' @ [backslash] @ ''.''"

definition tail_part :: "NotifyType \<Rightarrow> payload \<Rightarrow> string \<Rightarrow> string" where
  "tail_part kind p sanitized =
     '')'' @ raw_after_dao kind @ ''_\<newline>\<newline>>*'' @ escapeMarkdownV2 (proposalTitle p) @
     ''*\<newline>>\<newline>>'' @ quoted_description sanitized @
     (if has_outcome kind then outcome_line (winningChoice p) else [])"

text \<open>
  routes/telegram.ts is what writes the store, and it writes an identifier \<open>id\<close> as
  \<^verbatim>\<open>BigInt(id).toString()\<close>: a minus sign for a negative integer, then its decimal
  digits. An integer is held exactly by a double when the bits below its 53 leading ones are
  zero and it is below \<open>2 ^ 1024\<close>.
\<close>

definition digit_char :: "nat \<Rightarrow> char" where
  "digit_char d = char_of (of_char (CHR ''0'') + d)"

function digits :: "nat \<Rightarrow> string" where
  "digits n = (if n < 10 then [digit_char n] else digits (n div 10) @ [digit_char (n mod 10)])"
  by pat_completeness auto
termination
  by (relation "measure id") auto

declare digits.simps [simp del]

definition BigInt_toString :: "int \<Rightarrow> string" where
  "BigInt_toString n = (if n < 0 then CHR ''-'' # digits (nat (- n)) else digits (nat n))"

definition exact_double :: "int \<Rightarrow> bool" where
  "exact_double n \<longleftrightarrow>
     (let m = nat \<bar>n\<bar> in m mod 2 ^ (bit_length m - 53) = 0 \<and> m < 2 ^ 1024)"

section \<open>Lemmas\<close>

subsection \<open>The batch loop\<close>

lemma chunks_Nil: "chunks n [] = []"
  by (simp add: chunks.simps)

lemma chunks_step: "0 < n \<Longrightarrow> xs \<noteq> [] \<Longrightarrow> chunks n xs = take n xs # chunks n (drop n xs)"
  by (subst chunks.simps) simp

lemma map_enumerate_shift:
  "map (\<lambda>(j, d). f (i + j) d) (enumerate n ys) = map (\<lambda>(j, d). f j d) (enumerate (i + n) ys)"
  by (induction ys arbitrary: n) auto

lemma take_enumerate_eq: "take m (enumerate n xs) = enumerate n (take m xs)"
  by (induction xs arbitrary: m n) (auto simp: take_Cons split: nat.splits)

lemma drop_enumerate_eq: "drop m (enumerate n xs) = enumerate (n + m) (drop m xs)"
  by (induction xs arbitrary: m n) (auto simp: drop_Cons split: nat.splits)

lemma batch_responses:
  "map (\<lambda>(j, d). send (i + j) d) (enumerate 0 (slice registrations i (i + BATCH_SIZE)))
     = take BATCH_SIZE (drop i (all_deliveries send registrations))"
proof -
  have "map (\<lambda>(j, d). send (i + j) d) (enumerate 0 (slice registrations i (i + BATCH_SIZE)))
          = map (\<lambda>(j, d). send j d) (enumerate i (take BATCH_SIZE (drop i registrations)))"
    using map_enumerate_shift [of send i 0] by (simp add: slice_def)
  also have "enumerate i (take BATCH_SIZE (drop i registrations))
          = take BATCH_SIZE (drop i (enumerate 0 registrations))"
    by (simp add: take_enumerate_eq drop_enumerate_eq)
  finally show ?thesis
    by (simp add: all_deliveries_def take_map drop_map)
qed

lemma batch_loop_chunks:
  "batch_loop send registrations i succeeded ws =
     (succeeded + length (filter Boolean (map returned (drop i (all_deliveries send registrations)))),
      ws @ chunks BATCH_SIZE (drop i (all_deliveries send registrations)))"
proof (induction send registrations i succeeded ws rule: batch_loop.induct)
  case (1 send registrations i succeeded ws)
  let ?all = "all_deliveries send registrations"
  have len: "length ?all = length registrations"
    by (simp add: all_deliveries_def)
  show ?case
  proof (cases "i < length registrations")
    case True
    let ?batch = "take BATCH_SIZE (drop i ?all)"
    have later: "drop (i + BATCH_SIZE) ?all = drop BATCH_SIZE (drop i ?all)"
      by (simp add: add.commute)
    have split: "drop i ?all = ?batch @ drop (i + BATCH_SIZE) ?all"
      by (simp only: later append_take_drop_id)
    have count: "length (filter Boolean (map returned (drop i ?all)))
        = length (filter Boolean (map returned ?batch))
          + length (filter Boolean (map returned (drop (i + BATCH_SIZE) ?all)))"
      by (subst split) simp
    have nonempty: "drop i ?all \<noteq> []"
      using True len by simp
    have step: "chunks BATCH_SIZE (drop i ?all) = ?batch # chunks BATCH_SIZE (drop (i + BATCH_SIZE) ?all)"
      using chunks_step [OF _ nonempty, of BATCH_SIZE] by (simp add: BATCH_SIZE_def add.commute)
    have unfold: "batch_loop send registrations i succeeded ws =
        batch_loop send registrations (i + BATCH_SIZE)
          (succeeded + length (filter Boolean (map returned ?batch))) (ws @ [?batch])"
      using True by (subst batch_loop.simps) (simp only: Let_def batch_responses if_True)
    have ih: "batch_loop send registrations (i + BATCH_SIZE)
          (succeeded + length (filter Boolean (map returned ?batch))) (ws @ [?batch]) =
        (succeeded + length (filter Boolean (map returned ?batch))
           + length (filter Boolean (map returned (drop (i + BATCH_SIZE) ?all))),
         (ws @ [?batch]) @ chunks BATCH_SIZE (drop (i + BATCH_SIZE) ?all))"
      using "1.IH" [OF True refl refl] unfolding batch_responses .
    show ?thesis
      unfolding unfold ih count step by simp
  next
    case False
    then have "drop i ?all = []"
      using len by simp
    then show ?thesis
      using False by (subst batch_loop.simps) (simp add: chunks_Nil)
  qed
qed


subsection \<open>One delivery\<close>

lemma deliver_target: "target (deliver net env text j d) = d"
  by (simp add: deliver_def RETRIES_def eval_nat_numeral split: fetch_result.splits)

lemma deliver_returned: "returned (deliver net env text j d) = Some (succeeds net j)"
  by (cases "net j 1"; cases "net j 2"; cases "net j 3")
     (simp_all add: deliver_def RETRIES_def eval_nat_numeral succeeds_def first_success_def)

lemma deliver_fetch_count:
  "fetch_count (deliver net env text j d) = (case first_success (net j) of Some k \<Rightarrow> k | None \<Rightarrow> 3)"
  by (cases "net j 1"; cases "net j 2"; cases "net j 3")
     (simp_all add: deliver_def RETRIES_def eval_nat_numeral fetch_count_def first_success_def)

lemma map_enumerate_fst: "map (\<lambda>(j, d). g j) (enumerate n xs) = map g [n..<n + length xs]"
  by (induction xs arbitrary: n) (auto simp: upt_rec)

lemma map_enumerate_snd: "map (\<lambda>(j, d). h d) (enumerate n xs) = map h xs"
  by (induction xs arbitrary: n) auto

lemma all_deliveries_target: "map target (all_deliveries (deliver net env text) rs) = rs"
  using map_enumerate_snd [of "\<lambda>d. d" 0 rs]
  by (simp add: all_deliveries_def deliver_target case_prod_unfold comp_def)

lemma all_deliveries_returned:
  "map returned (all_deliveries (deliver net env text) rs) = map (\<lambda>j. Some (succeeds net j)) [0..<length rs]"
  using map_enumerate_fst [of "\<lambda>j. Some (succeeds net j)" 0 rs]
  by (simp add: all_deliveries_def deliver_returned case_prod_unfold comp_def)

lemma all_deliveries_fetch_count:
  "map fetch_count (all_deliveries (deliver net env text) rs)
     = map (\<lambda>j. case first_success (net j) of Some k \<Rightarrow> k | None \<Rightarrow> 3) [0..<length rs]"
  using map_enumerate_fst [of "\<lambda>j. case first_success (net j) of Some k \<Rightarrow> k | None \<Rightarrow> 3" 0 rs]
  by (simp add: all_deliveries_def deliver_fetch_count case_prod_unfold comp_def)

lemma count_succeeded:
  "length (filter Boolean (map returned (all_deliveries (deliver net env text) rs)))
     = length (filter (succeeds net) [0..<length rs])"
  by (simp add: all_deliveries_returned Boolean_def comp_def)

subsection \<open>The handler\<close>

lemma message_nonempty: "accepted_type (type_field p) \<Longrightarrow> message rm p \<noteq> []"
  by (auto simp: accepted_type_def message_def notification_text_def split: option.splits)

lemma message_empty: "\<not> accepted_type (type_field p) \<Longrightarrow> message rm p = []"
  by (auto simp: accepted_type_def message_def notification_text_def split: option.splits)

lemma notify_accepted:
  assumes "param_chainId request = Some c" and "c \<noteq> []"
    and "param_dao request = Some d" and "d \<noteq> []"
    and "apiKey (json request) = Some (NOTIFY_API_KEY env)"
    and "accepted_type (type_field (json request))"
  shows "notify rm net request env =
    \<lparr>resp = respond 200 (Some [(''success'', JBool True),
         (''count'', JNumber (length (filter Boolean (map returned
            (all_deliveries (deliver net env (message rm (json request))) (registrations_of env c d))))))]),
     statements = [lookup c d],
     waves = chunks BATCH_SIZE
       (all_deliveries (deliver net env (message rm (json request))) (registrations_of env c d))\<rparr>"
proof -
  have nonempty: "message rm (json request) \<noteq> []"
    using assms(6) by (rule message_nonempty)
  show ?thesis
    using assms(1-5) nonempty
    by (simp add: notify_def Let_def batch_loop_chunks message_def [symmetric]
        lookup_def [symmetric] registrations_of_def [symmetric])
qed

subsection \<open>Slices\<close>



lemma concat_chunks: "0 < n \<Longrightarrow> concat (chunks n xs) = xs"
proof (induction n xs rule: chunks.induct)
  case (1 n xs)
  then show ?case
    by (cases "xs = []") (simp_all add: chunks_Nil chunks_step)
qed





lemma sum_list_ones: "(\<forall>j<n. f j = (1::nat)) \<Longrightarrow> sum_list (map f [0..<n]) = n"
  by (induction n) auto

lemma filter_all_upt: "(\<forall>j<n. P j) \<Longrightarrow> length (filter P [0..<n]) = n"
  by (induction n) auto

lemma filter_none_upt: "(\<forall>j<n. \<not> P j) \<Longrightarrow> length (filter P [0..<n]) = 0"
  by (induction n) auto

lemma notify_statements:
  "statements (notify rm net request env) = [] \<or>
   (\<exists>c d. statements (notify rm net request env) = [lookup c d])"
  by (auto simp: notify_def returns_def Let_def lookup_def split: option.splits prod.splits)

subsection \<open>The example\<close>

lemma example_accepted:
  "param_chainId example_request = Some ''osmosis-1''" "''osmosis-1'' \<noteq> []"
  "param_dao example_request = Some ''dao1abc''" "''dao1abc'' \<noteq> []"
  "apiKey (json example_request) = Some (NOTIFY_API_KEY example_env)"
  "accepted_type (type_field (json example_request))"
  by (simp_all add: example_request_def example_payload_def example_env_def accepted_type_def)

lemma example_lookup:
  "registrations_of example_env ''osmosis-1'' ''dao1abc'' = example_registrations"
  by (simp add: registrations_of_def example_env_def)

lemma example_count:
  "length (filter (succeeds example_net) [0..<length example_registrations]) = 2"
  by (simp add: example_registrations_def upt_rec succeeds_def first_success_def example_net_def)



subsection \<open>Attempts\<close>

lemma is_resolved_iff: "is_resolved r \<longleftrightarrow> (\<exists>st txt. r = Resolved st txt)"
  by (cases r) simp_all

lemma succeeds_iff:
  "succeeds net j \<longleftrightarrow> (\<exists>k\<in>{1, 2, 3}. \<exists>st txt. net j k = Resolved st txt)"
  by (auto simp: succeeds_def first_success_def is_resolved_iff)

lemma deliver_exhausted:
  "first_success (net j) = None \<Longrightarrow>
   \<exists>err. deliver net env text j d =
     \<lparr>target = d,
      events = [Fetch (sendMessage_url env) (sendMessage_body text d),
                Fetch (sendMessage_url env) (sendMessage_body text d),
                Fetch (sendMessage_url env) (sendMessage_body text d),
                ConsoleError d err, ConsoleError d err],
      returned = Some False\<rparr>"
  by (cases "net j 1"; cases "net j 2"; cases "net j 3")
     (simp_all add: deliver_def RETRIES_def eval_nat_numeral first_success_def)

lemma first_success_range: "first_success f = Some k \<Longrightarrow> k = 1 \<or> k = 2 \<or> k = 3"
  by (auto simp: first_success_def split: if_splits)

lemma deliver_resolved:
  assumes "first_success (net j) = Some k" and "net j k = Resolved st txt"
  shows "deliver net env text j d =
     \<lparr>target = d,
      events = replicate k (Fetch (sendMessage_url env) (sendMessage_body text d)) @
               [ConsoleLog d st (case txt of None \<Rightarrow> [] | Some t \<Rightarrow> t)],
      returned = Some True\<rparr>"
proof -
  from first_success_range [OF assms(1)] consider "k = 1" | "k = 2" | "k = 3"
    by blast
  then show ?thesis
  proof cases
    case 1
    then show ?thesis
      using assms by (simp add: deliver_def RETRIES_def eval_nat_numeral)
  next
    case 2
    then have "\<not> is_resolved (net j 1)"
      using assms(1) by (auto simp: first_success_def split: if_splits)
    then obtain e where "net j 1 = Rejected e"
      by (cases "net j 1") auto
    then show ?thesis
      using 2 assms(2) by (simp add: deliver_def RETRIES_def eval_nat_numeral)
  next
    case 3
    then have "\<not> is_resolved (net j 1)" and "\<not> is_resolved (net j 2)"
      using assms(1) by (auto simp: first_success_def split: if_splits)
    then obtain e f where "net j 1 = Rejected e" and "net j 2 = Rejected f"
      by (cases "net j 1"; cases "net j 2") auto
    then show ?thesis
      using 3 assms(2) by (simp add: deliver_def RETRIES_def eval_nat_numeral)
  qed
qed

lemma first_success_le: "(case first_success f of Some k \<Rightarrow> k | None \<Rightarrow> 3) \<le> (3::nat)"
  by (simp add: first_success_def)

subsection \<open>Traces\<close>























subsection \<open>Escaping\<close>

lemma reserved_all_escaped: "list_all escape_class (CHR 0x5C # ''_*[]()~`>#+-=|{}.!'')"
  by (simp add: escape_class_def)

lemma reserved_escape_class: "reserved c \<Longrightarrow> escape_class c"
  unfolding reserved_def using reserved_all_escaped [unfolded list_all_iff] by blast

lemma white_space_not_escaped: "is_white_space c \<Longrightarrow> \<not> escape_class c"
  by (auto simp: is_white_space_def escape_class_def)

lemma backslash_not_white_space: "\<not> is_white_space backslash"
  by (simp add: is_white_space_def backslash_def)

lemma newline_not_escaped: "\<not> escape_class newline"
  by (simp add: escape_class_def newline_def)

lemma reserved_backslash: "reserved backslash"
  by (simp add: reserved_def backslash_def)

lemma tokens_plain: "\<not> reserved c \<Longrightarrow> tokens (c # rest) = Lit c # tokens rest"
  using reserved_backslash by (cases rest) auto

lemma tokens_markup: "reserved c \<Longrightarrow> c \<noteq> backslash \<Longrightarrow> tokens (c # rest) = Markup c # tokens rest"
  by (cases rest) auto

lemma tokens_escaped: "tokens (backslash # c # rest) = Lit c # tokens rest"
  by simp

lemma tokens_escapeMarkdownV2:
  "tokens (escapeMarkdownV2 s @ rest) = map Lit s @ tokens rest"
proof (induction s)
  case Nil
  show ?case by simp
next
  case (Cons c s)
  show ?case
  proof (cases "escape_class c")
    case True
    then show ?thesis
      using Cons.IH by simp
  next
    case False
    then have "\<not> reserved c"
      using reserved_escape_class by blast
    then show ?thesis
      using False Cons.IH by (simp add: tokens_plain)
  qed
qed

lemma escapeMarkdownV2_append:
  "escapeMarkdownV2 (xs @ ys) = escapeMarkdownV2 xs @ escapeMarkdownV2 ys"
  by (induction xs) simp_all

lemma dropWhile_escapeMarkdownV2:
  "dropWhile is_white_space (escapeMarkdownV2 s) = escapeMarkdownV2 (dropWhile is_white_space s)"
  by (induction s) (auto simp: white_space_not_escaped backslash_not_white_space)

lemma trim_end_escapeMarkdownV2:
  "rev (dropWhile is_white_space (rev (escapeMarkdownV2 s)))
     = escapeMarkdownV2 (rev (dropWhile is_white_space (rev s)))"
proof (induction s rule: rev_induct)
  case Nil
  show ?case by simp
next
  case (snoc x xs)
  show ?case
  proof (cases "is_white_space x")
    case True
    then show ?thesis
      using snoc.IH by (simp add: escapeMarkdownV2_append white_space_not_escaped)
  next
    case False
    then show ?thesis
      by (simp add: escapeMarkdownV2_append)
  qed
qed

lemma trim_escapeMarkdownV2: "trim (escapeMarkdownV2 s) = escapeMarkdownV2 (trim s)"
  by (simp add: trim_def dropWhile_escapeMarkdownV2 trim_end_escapeMarkdownV2)

lemma split_on_nonempty: "split_on sep s \<noteq> []"
  by (induction s) (auto split: list.splits)

lemma join_Cons: "join sep ((c # l) # ls) = c # join sep (l # ls)"
  by (cases ls) simp_all

lemma join_split_on:
  "join (sep # suffix) (split_on sep s) = concat (map (\<lambda>c. if c = sep then sep # suffix else [c]) s)"
proof (induction s)
  case Nil
  show ?case by simp
next
  case (Cons c s)
  obtain l ls where parts: "split_on sep s = l # ls"
    using split_on_nonempty [of sep s] by (cases "split_on sep s") auto
  show ?case
    using Cons.IH by (simp add: parts join_Cons)
qed

lemma tokens_quoted:
  "tokens (concat (map (\<lambda>c. if c = newline then newline # ''>'' else [c]) (escapeMarkdownV2 s)) @ rest)
     = quoted_tokens s @ tokens rest"
proof (induction s)
  case Nil
  show ?case by (simp add: quoted_tokens_def)
next
  case (Cons c s)
  let ?q = "\<lambda>c. if c = newline then newline # ''>'' else [c]"
  let ?X = "concat (map ?q (escapeMarkdownV2 s)) @ rest"
  have nl: "\<not> reserved newline" and gt: "reserved (CHR ''>'')" "CHR ''>'' \<noteq> backslash"
    and bs: "backslash \<noteq> newline"
    by (simp_all add: reserved_def newline_def backslash_def)
  have IH: "tokens ?X = quoted_tokens s @ tokens rest"
    by (rule Cons.IH)
  show ?case
  proof (cases "c = newline")
    case True
    have "concat (map ?q (escapeMarkdownV2 (c # s))) @ rest = newline # CHR ''>'' # ?X"
      using True newline_not_escaped by simp
    moreover have "tokens (newline # CHR ''>'' # ?X) = Lit newline # Markup (CHR ''>'') # tokens ?X"
      by (simp only: tokens_plain [OF nl] tokens_markup [OF gt])
    moreover have "quoted_tokens (c # s) = Lit newline # Markup (CHR ''>'') # quoted_tokens s"
      using True by (simp add: quoted_tokens_def)
    ultimately show ?thesis
      using IH by simp
  next
    case False
    have q: "quoted_tokens (c # s) = Lit c # quoted_tokens s"
      using False by (simp add: quoted_tokens_def)
    show ?thesis
    proof (cases "escape_class c")
      case True
      have "concat (map ?q (escapeMarkdownV2 (c # s))) @ rest = backslash # c # ?X"
        using True False bs by simp
      moreover have "tokens (backslash # c # ?X) = Lit c # tokens ?X"
        by (rule tokens_escaped)
      ultimately show ?thesis
        using IH q by simp
    next
      case plain: False
      then have "\<not> reserved c"
        using reserved_escape_class by blast
      then have "tokens (c # ?X) = Lit c # tokens ?X"
        by (rule tokens_plain)
      moreover have "concat (map ?q (escapeMarkdownV2 (c # s))) @ rest = c # ?X"
        using plain False by simp
      ultimately show ?thesis
        using IH q by simp
    qed
  qed
qed

lemma quoted_description_eq:
  "quoted_description s =
     concat (map (\<lambda>c. if c = newline then [newline, CHR ''>''] else [c]) (escapeMarkdownV2 (trim s)))"
  by (simp only: quoted_description_def join_split_on trim_escapeMarkdownV2)

lemma tokens_quoted_description:
  "tokens (quoted_description s @ rest) = quoted_tokens (trim s) @ tokens rest"
  by (simp only: quoted_description_def join_split_on trim_escapeMarkdownV2 tokens_quoted)

lemma tokens_markup_char:
  "reserved c \<Longrightarrow> c \<noteq> CHR 0x5C \<Longrightarrow> tokens (c # rest) = Markup c # tokens rest"
  using tokens_markup [of c rest] by (simp add: backslash_def)

lemmas tokens_rules =
  tokens_plain tokens_markup_char tokens_escaped tokens_escapeMarkdownV2 tokens_quoted_description
  reserved_def newline_def

subsection \<open>The templates\<close>

lemma notification_text_parts:
  "notification_text (NotifyType_value kind) p sanitized =
     head_part p @ url p @ mid_part kind p @ daoUrl p @ tail_part kind p sanitized"
  by (cases kind) (simp_all add: notification_text_def head_part_def mid_part_def tail_part_def)

lemma tokens_head_part:
  "tokens (head_part p) =
     map Markup ''_['' @ map Lit ''Proposal '' @ map Lit (proposalId p) @ map Markup ''](''"
  by (simp add: head_part_def tokens_rules del: tokens.simps(2,3))

lemma tokens_mid_part:
  "tokens (mid_part kind p) =
     map Markup '')'' @ map Lit (before_dao kind) @ map Markup ''['' @ map Lit (daoName p) @
     map Markup ''](''"
  by (cases kind) (simp_all add: mid_part_def tokens_rules del: tokens.simps(2,3))

lemma tokens_raw_after_dao:
  "tokens (raw_after_dao kind @ rest) = map Lit (after_dao kind) @ tokens rest"
  by (cases kind) (simp_all add: tokens_rules del: tokens.simps(2,3))

lemma tokens_outcome_line:
  "tokens (if has_outcome kind then outcome_line choice else []) = outcome_tokens kind choice"
  by (cases kind; cases choice)
     (simp_all add: outcome_line_def outcome_tokens_def tokens_rules del: tokens.simps(2,3))

lemma tokens_tail_part:
  "tokens (tail_part kind p sanitized) =
     map Markup '')'' @ map Lit (after_dao kind) @ map Markup ''_'' @ [Lit newline, Lit newline] @
     map Markup ''>*'' @ map Lit (proposalTitle p) @
     [Markup (CHR ''*''), Lit newline, Markup (CHR ''>''), Lit newline, Markup (CHR ''>'')] @
     quoted_tokens (trim sanitized) @ outcome_tokens kind (winningChoice p)"
proof -
  let ?rest = "''_\<newline>\<newline>>*'' @ escapeMarkdownV2 (proposalTitle p) @
     ''*\<newline>>\<newline>>'' @ quoted_description sanitized @
     (if has_outcome kind then outcome_line (winningChoice p) else [])"
  have "tokens (tail_part kind p sanitized) = Markup (CHR '')'') # tokens (raw_after_dao kind @ ?rest)"
    by (simp add: tail_part_def tokens_markup_char reserved_def del: tokens.simps(2,3))
  also have "tokens (raw_after_dao kind @ ?rest) = map Lit (after_dao kind) @ tokens ?rest"
    by (rule tokens_raw_after_dao)
  also have "tokens ?rest =
     map Markup ''_'' @ [Lit newline, Lit newline] @
     map Markup ''>*'' @ map Lit (proposalTitle p) @
     [Markup (CHR ''*''), Lit newline, Markup (CHR ''>''), Lit newline, Markup (CHR ''>'')] @
     quoted_tokens (trim sanitized) @ outcome_tokens kind (winningChoice p)"
    by (simp add: tokens_rules tokens_outcome_line del: tokens.simps(2,3))
  finally show ?thesis
    by simp
qed

subsection \<open>Numbers\<close>

lemma bit_length_le: "m < 2 ^ k \<Longrightarrow> bit_length m \<le> k"
proof (induction k arbitrary: m)
  case 0
  then show ?case by (simp add: bit_length.simps)
next
  case (Suc k)
  have "m div 2 < 2 ^ k"
    using Suc.prems by (simp add: less_mult_imp_div_less mult.commute)
  then have "bit_length (m div 2) \<le> k"
    by (rule Suc.IH)
  then show ?case
    by (subst bit_length.simps) simp
qed

lemma bit_length_power: "bit_length (2 ^ k) = Suc k"
  by (induction k) (simp_all add: bit_length.simps)

lemma dropWhile_none: "\<forall>c\<in>set s. \<not> P c \<Longrightarrow> dropWhile P s = s"
  by (cases s) simp_all

lemma trim_no_white_space: "\<forall>c\<in>set s. \<not> is_white_space c \<Longrightarrow> trim s = s"
  by (simp add: trim_def dropWhile_none)

lemma is_digit_not_white_space: "is_digit c \<Longrightarrow> \<not> is_white_space c"
  by (auto simp: is_digit_def is_white_space_def)

lemma decimal_integer_no_white_space:
  assumes "decimal_integer s = Some n"
  shows "s \<noteq> [] \<and> (\<forall>c\<in>set s. \<not> is_white_space c)"
proof (cases s)
  case Nil
  with assms show ?thesis by (simp add: decimal_integer_def)
next
  case (Cons c cs)
  have sign: "\<not> is_white_space (CHR ''-'')" "\<not> is_white_space (CHR ''+'')"
    by (simp_all add: is_white_space_def)
  show ?thesis
    using assms Cons sign
    by (auto simp: decimal_integer_def list_all_iff is_digit_not_white_space split: if_splits)
qed

lemma Number_decimal:
  assumes "decimal_integer s = Some n"
  shows "Number s = round_to_double n"
proof -
  have "trim s = s" and "s \<noteq> []"
    using decimal_integer_no_white_space [OF assms] by (simp_all add: trim_no_white_space)
  then show ?thesis
    using assms by (simp add: Number_def)
qed

lemma digit_char_props: "d < 10 \<Longrightarrow> is_digit (digit_char d) \<and> digit_value (digit_char d) = d"
  by (simp add: digit_char_def is_digit_def digit_value_def)

lemma digits_value_snoc: "digits_value (ds @ [c]) = 10 * digits_value ds + digit_value c"
  by (simp add: digits_value_def)

lemma digits_props: "digits n \<noteq> [] \<and> list_all is_digit (digits n) \<and> digits_value (digits n) = n"
proof (induction n rule: digits.induct)
  case (1 n)
  show ?case
  proof (cases "n < 10")
    case True
    then show ?thesis
      using digit_char_props [of n] by (subst (1 2 3) digits.simps) (simp add: digits_value_def)
  next
    case False
    have d: "is_digit (digit_char (n mod 10))" "digit_value (digit_char (n mod 10)) = n mod 10"
      using digit_char_props [of "n mod 10"] by simp_all
    show ?thesis
      using False "1.IH" d by (subst (1 2 3) digits.simps) (simp add: digits_value_snoc)
  qed
qed

lemma is_digit_not_sign: "is_digit c \<Longrightarrow> c \<noteq> CHR ''-'' \<and> c \<noteq> CHR ''+''"
  by (auto simp: is_digit_def)

lemma decimal_integer_digits: "decimal_integer (digits n) = Some (int n)"
proof -
  obtain c cs where ds: "digits n = c # cs"
    using digits_props [of n] by (cases "digits n") auto
  then have "is_digit c"
    using digits_props [of n] by simp
  then have "c \<noteq> CHR ''-''" and "c \<noteq> CHR ''+''"
    using is_digit_not_sign by blast+
  then show ?thesis
    using digits_props [of n] ds by (simp add: decimal_integer_def)
qed

lemma decimal_integer_BigInt_toString: "decimal_integer (BigInt_toString n) = Some n"
proof (cases "n < 0")
  case True
  then show ?thesis
    using digits_props [of "nat (- n)"] by (simp add: BigInt_toString_def decimal_integer_def)
next
  case False
  then show ?thesis
    using decimal_integer_digits [of "nat n"] by (simp add: BigInt_toString_def)
qed

lemma round_to_double_exact_double:
  assumes "exact_double n"
  shows "round_to_double n = Finite n"
proof -
  let ?m = "nat \<bar>n\<bar>"
  let ?e = "bit_length ?m - 53"
  have r: "?m mod 2 ^ ?e = 0" and fin: "?m < 2 ^ 1024"
    using assms by (simp_all add: exact_double_def Let_def)
  have v: "?m div 2 ^ ?e * 2 ^ ?e = ?m"
    using r div_mult_mod_eq [of ?m "2 ^ ?e"] by simp
  have q: "(if 2 ^ ?e < 2 * (0::nat) \<or> (2 * (0::nat) = 2 ^ ?e \<and> odd (?m div 2 ^ ?e))
            then ?m div 2 ^ ?e + 1 else ?m div 2 ^ ?e) = ?m div 2 ^ ?e"
    by simp
  have "round_to_double n = Finite (if n < 0 then - int ?m else int ?m)"
    using fin unfolding round_to_double_def Let_def r q v by simp
  then show ?thesis
    by auto
qed

lemma exact_double_small: "\<bar>n\<bar> \<le> 2 ^ 53 \<Longrightarrow> exact_double n"
proof -
  assume "\<bar>n\<bar> \<le> 2 ^ 53"
  then have le: "nat \<bar>n\<bar> \<le> 2 ^ 53"
    by (simp add: nat_le_iff)
  have big: "(2::nat) ^ 53 < 2 ^ 1024"
    by (rule power_strict_increasing) simp_all
  from le consider "nat \<bar>n\<bar> < 2 ^ 53" | "nat \<bar>n\<bar> = 2 ^ 53"
    by linarith
  then show ?thesis
  proof cases
    case 1
    then have "bit_length (nat \<bar>n\<bar>) - 53 = 0"
      using bit_length_le [of "nat \<bar>n\<bar>" 53] by simp
    then show ?thesis
      using 1 big by (simp add: exact_double_def Let_def)
  next
    case 2
    have "bit_length ((2::nat) ^ 53) - 53 = 1"
      unfolding bit_length_power by simp
    then have "nat \<bar>n\<bar> mod 2 ^ (bit_length (nat \<bar>n\<bar>) - 53) = 0"
      unfolding 2 by simp
    then show ?thesis
      using 2 big by (simp add: exact_double_def Let_def)
  qed
qed

section \<open>The claims\<close>

text \<open>
  \<^bold>\<open>C1\<close>. The claim: every interpolated field, \<open>daoUrl\<close> and \<open>url\<close>
  among them, has each reserved character backslash-escaped before composition, the scaffolding
  is inserted unescaped, and the rendered text has no unescaped reserved character coming from
  those fields.

  What holds: \<^verbatim>\<open>escapeMarkdownV2\<close> escapes every character of the reserved set, so
  that its result reads back as literal characters only, and for each of the four kinds the
  message is \<open>A @ url @ B @ daoUrl @ C\<close> where \<open>A\<close>, \<open>B\<close> and \<open>C\<close> read back as the
  scaffolding (markup) around \<open>proposalId\<close>, \<open>daoName\<close>, \<open>proposalTitle\<close>, the trimmed
  description and \<open>winningChoice\<close>, each of them literal. \<open>url\<close> and \<open>daoUrl\<close> are the
  link targets and are inserted as they come: the counterexample renders the example payload,
  whose URLs keep their dots and their hyphen unescaped.
\<close>

theorem C1_fields_escaped:
  assumes "type_field p = Some (NotifyType_value kind) \<or> (type_field p = None \<and> kind = ProposalCreated)"
  shows "(\<forall>c. reserved c \<longrightarrow> escape_class c)
       \<and> (\<forall>s. tokens (escapeMarkdownV2 s) = map Lit s)
       \<and> (\<exists>A B C. message rm p = A @ url p @ B @ daoUrl p @ C
            \<and> tokens A =
                map Markup ''_['' @ map Lit ''Proposal '' @ map Lit (proposalId p) @ map Markup ''](''
            \<and> tokens B =
                map Markup '')'' @ map Lit (before_dao kind) @ map Markup ''['' @
                map Lit (daoName p) @ map Markup ''](''
            \<and> tokens C =
                map Markup '')'' @ map Lit (after_dao kind) @ map Markup ''_'' @
                [Lit newline, Lit newline] @ map Markup ''>*'' @ map Lit (proposalTitle p) @
                [Markup (CHR ''*''), Lit newline, Markup (CHR ''>''), Lit newline, Markup (CHR ''>'')] @
                quoted_tokens (trim (sanitizedDescription rm (proposalDescription p))) @
                outcome_tokens kind (winningChoice p))"
proof -
  let ?s = "sanitizedDescription rm (proposalDescription p)"
  have type: "(case type_field p of None \<Rightarrow> NotifyType_value ProposalCreated | Some t \<Rightarrow> t)
      = NotifyType_value kind"
    using assms by auto
  have parts: "message rm p = head_part p @ url p @ mid_part kind p @ daoUrl p @ tail_part kind p ?s"
    unfolding message_def type by (rule notification_text_parts)
  have esc: "\<forall>s. tokens (escapeMarkdownV2 s) = map Lit s"
    using tokens_escapeMarkdownV2 [of _ "[]"] by simp
  show ?thesis
    using reserved_escape_class esc parts tokens_head_part [of p] tokens_mid_part [of kind p]
      tokens_tail_part [of kind p ?s]
    by blast
qed


theorem C1_fields_escaped_witness:
  "\<exists>A B C. message (\<lambda>s. s) example_payload = A @ url example_payload @ B @ daoUrl example_payload @ C
      \<and> tokens A =
          map Markup ''_['' @ map Lit ''Proposal '' @ map Lit (proposalId example_payload) @
          map Markup ''](''"
proof -
  have kind: "type_field example_payload = Some (NotifyType_value ProposalExecuted)"
    by (simp add: example_payload_def)
  from C1_fields_escaped [where p = example_payload and kind = ProposalExecuted and rm = "\<lambda>s. s",
      OF disjI1 [OF kind]]
  show ?thesis
    by blast
qed

theorem C1_url_counterexample:
  "message (\<lambda>s. s) example_payload =
    ''_[Proposal A'' @ [backslash] @ ''-'' @ [backslash] @ ''4'' @ [backslash] @
    ''2](https://daodao.zone/dao/x/proposals/A-42) in [My'' @ [backslash] @
    ''_DAO](https://daodao.zone/dao/x)'' @ [backslash] @ '' was passed and executed'' @ [backslash] @
    ''._\<newline>\<newline>>*Fund '' @ [backslash] @ ''#'' @ [backslash] @ ''1*\<newline>>\<newline>>Pay '' @ [backslash] @ ''1'' @
    [backslash] @ ''.'' @ [backslash] @ ''5 to a'' @ [backslash] @ ''-b\<newline>>\<newline>>Outcome: *Yes'' @
    [backslash] @ ''!*''
   \<and> url example_payload = ''https://daodao.zone/dao/x/proposals/A-42''
   \<and> escapeMarkdownV2 (url example_payload) \<noteq> url example_payload
   \<and> tokens (url example_payload) \<noteq> map Lit (url example_payload)"
  by (simp add: message_def example_payload_def notification_text_def sanitizedDescription_def
     MAX_DESCRIPTION_LENGTH_def quoted_description_def outcome_line_def escape_class_def trim_def
     is_white_space_def newline_def backslash_def reserved_def)

text \<open>
  \<^bold>\<open>C2\<close>. Past the check of the two parameters, the check of the API key and
  the check of the event kind, the response is 200 with \<open>success: true\<close> and a count that is
  the number of destinations, among the \<open>n\<close> the lookup returned, one of whose three
  attempts resolved; the count is at most \<open>n\<close>; with no registration it is 0 and there is
  no wave, hence no delivery call; and when every delivery fails it is 0, the response being
  the same 200.
\<close>

theorem C2_success_count:
  assumes "param_chainId request = Some c" and "c \<noteq> []"
    and "param_dao request = Some d" and "d \<noteq> []"
    and "apiKey (json request) = Some (NOTIFY_API_KEY env)"
    and "accepted_type (type_field (json request))"
  shows "let n = length (registrations_of env c d);
             count = length (filter (succeeds net) [0..<n])
         in resp (notify rm net request env) =
              \<lparr>status = 200, body = Some [(''success'', JBool True), (''count'', JNumber count)]\<rparr>
          \<and> count \<le> n
          \<and> (n = 0 \<longrightarrow> count = 0 \<and> waves (notify rm net request env) = [])
          \<and> ((\<forall>j<n. \<not> succeeds net j) \<longrightarrow> count = 0)"
proof -
  let ?n = "length (registrations_of env c d)"
  let ?count = "length (filter (succeeds net) [0..<?n])"
  note out = notify_accepted [OF assms, of rm net]
  have r: "resp (notify rm net request env) =
      \<lparr>status = 200, body = Some [(''success'', JBool True), (''count'', JNumber ?count)]\<rparr>"
    unfolding out count_succeeded by (simp add: respond_def)
  have le: "?count \<le> ?n"
    using length_filter_le [of "succeeds net" "[0..<?n]"] by simp
  have empty: "?n = 0 \<longrightarrow> ?count = 0 \<and> waves (notify rm net request env) = []"
    by (simp add: out all_deliveries_def chunks_Nil)
  have none: "(\<forall>j<?n. \<not> succeeds net j) \<longrightarrow> ?count = 0"
    using filter_none_upt [of ?n "succeeds net"] by blast
  show ?thesis
    unfolding Let_def using r le empty none by blast
qed

theorem C2_success_count_witness:
  "resp (notify (\<lambda>s. s) example_net example_request example_env) =
     \<lparr>status = 200, body = Some [(''success'', JBool True), (''count'', JNumber 2)]\<rparr>"
proof -
  from C2_success_count [OF example_accepted, where rm = "\<lambda>s. s" and net = example_net]
  show ?thesis
    unfolding Let_def example_lookup example_count by simp
qed

text \<open>
  \<^bold>\<open>C3\<close>. Every destination the lookup returned has its delivery task, in
  the lookup's order, whatever happens to the others. The task of destination \<open>j\<close> calls
  \<^verbatim>\<open>fetch\<close> as many times as the number of its first resolved attempt, or three times
  when none of the three resolves, so never more than three times; it returns true exactly
  when one of the three resolves, and the count is the number of such destinations. When the
  first attempt of every destination resolves, \<^verbatim>\<open>fetch\<close> is called \<open>n\<close> times in all
  and the count is \<open>n\<close>.
\<close>

theorem C3_retry_budget:
  assumes "param_chainId request = Some c" and "c \<noteq> []"
    and "param_dao request = Some d" and "d \<noteq> []"
    and "apiKey (json request) = Some (NOTIFY_API_KEY env)"
    and "accepted_type (type_field (json request))"
  shows "let out = notify rm net request env;
             n = length (registrations_of env c d);
             tasks = concat (waves out)
         in map target tasks = registrations_of env c d
          \<and> map fetch_count tasks =
              map (\<lambda>j. case first_success (net j) of Some k \<Rightarrow> k | None \<Rightarrow> 3) [0..<n]
          \<and> list_all (\<lambda>t. fetch_count t \<le> 3) tasks
          \<and> map returned tasks = map (\<lambda>j. Some (first_success (net j) \<noteq> None)) [0..<n]
          \<and> resp out =
              \<lparr>status = 200,
               body = Some [(''success'', JBool True),
                 (''count'', JNumber (length (filter (\<lambda>j. first_success (net j) \<noteq> None) [0..<n])))]\<rparr>
          \<and> ((\<forall>j<n. is_resolved (net j 1)) \<longrightarrow>
                sum_list (map fetch_count tasks) = n \<and>
                resp out = \<lparr>status = 200,
                            body = Some [(''success'', JBool True), (''count'', JNumber n)]\<rparr>)"
proof -
  let ?regs = "registrations_of env c d"
  let ?n = "length ?regs"
  let ?all = "all_deliveries (deliver net env (message rm (json request))) ?regs"
  let ?cost = "\<lambda>j. case first_success (net j) of Some k \<Rightarrow> k | None \<Rightarrow> (3::nat)"
  note out = notify_accepted [OF assms, of rm net]
  have tasks: "concat (waves (notify rm net request env)) = ?all"
    by (simp add: out concat_chunks BATCH_SIZE_def)
  have a: "map target ?all = ?regs"
    by (rule all_deliveries_target)
  have b: "map fetch_count ?all = map ?cost [0..<?n]"
    by (rule all_deliveries_fetch_count)
  have "list_all (\<lambda>k. k \<le> 3) (map fetch_count ?all)"
    unfolding b by (simp add: list_all_iff first_success_le)
  then have c: "list_all (\<lambda>t. fetch_count t \<le> 3) ?all"
    by (simp add: list_all_iff)
  have d: "map returned ?all = map (\<lambda>j. Some (first_success (net j) \<noteq> None)) [0..<?n]"
    using all_deliveries_returned [of net env "message rm (json request)" ?regs]
    by (simp add: succeeds_def)
  have e: "resp (notify rm net request env) =
      \<lparr>status = 200,
       body = Some [(''success'', JBool True),
         (''count'', JNumber (length (filter (\<lambda>j. first_success (net j) \<noteq> None) [0..<?n])))]\<rparr>"
    unfolding out count_succeeded by (simp add: respond_def succeeds_def [abs_def])
  have f: "(\<forall>j<?n. is_resolved (net j 1)) \<longrightarrow>
      sum_list (map fetch_count ?all) = ?n \<and>
      resp (notify rm net request env) =
        \<lparr>status = 200, body = Some [(''success'', JBool True), (''count'', JNumber ?n)]\<rparr>"
  proof
    assume first: "\<forall>j<?n. is_resolved (net j 1)"
    then have one: "\<forall>j<?n. ?cost j = 1"
      by (simp add: first_success_def)
    have all: "\<forall>j<?n. first_success (net j) \<noteq> None"
      using first by (simp add: first_success_def)
    show "sum_list (map fetch_count ?all) = ?n \<and>
      resp (notify rm net request env) =
        \<lparr>status = 200, body = Some [(''success'', JBool True), (''count'', JNumber ?n)]\<rparr>"
      unfolding b e using sum_list_ones [OF one] filter_all_upt [OF all] by simp
  qed
  show ?thesis
    unfolding Let_def tasks using a b c d e f by blast
qed

theorem C3_retry_budget_witness:
  "map fetch_count (concat (waves (notify (\<lambda>s. s) example_net example_request example_env))) = [1, 3, 3]
   \<and> map returned (concat (waves (notify (\<lambda>s. s) example_net example_request example_env)))
       = [Some True, Some True, Some False]"
proof -
  have upt: "[0..<length example_registrations] = [0, 1, 2]"
    by (simp add: example_registrations_def upt_rec)
  have fs: "first_success (example_net 0) = Some 1" "first_success (example_net (Suc 0)) = Some 3"
    "first_success (example_net 2) = None"
    by (simp_all add: first_success_def example_net_def)
  from C3_retry_budget [OF example_accepted, where rm = "\<lambda>s. s" and net = example_net]
  show ?thesis
    unfolding Let_def example_lookup upt by (simp add: fs)
qed



text \<open>
  \<^bold>\<open>C5\<close>. A request whose type, after the default, is outside the closed set runs
  no statement on the store and starts no wave, whatever its parameters and its key, and its
  response is never the 200 of success. The kind is checked third, after the two parameters
  and the key: a request that passes those two checks gets 400 \<open>Invalid notification type.\<close>
\<close>

theorem C5_unknown_type:
  assumes "\<not> accepted_type (type_field (json request))"
  shows "statements (notify rm net request env) = []
       \<and> waves (notify rm net request env) = []
       \<and> status (resp (notify rm net request env)) \<noteq> 200
       \<and> (\<forall>c d. param_chainId request = Some c \<and> c \<noteq> [] \<and> param_dao request = Some d \<and> d \<noteq> []
                \<and> apiKey (json request) = Some (NOTIFY_API_KEY env) \<longrightarrow>
            resp (notify rm net request env) =
              \<lparr>status = 400, body = Some [(''error'', JString ''Invalid notification type.'')]\<rparr>)"
  using message_empty [OF assms, of rm]
  by (auto simp: notify_def Let_def returns_def respondError_def respond_def message_def
      split: option.splits)

theorem C5_unknown_type_witness:
  "notify (\<lambda>s. s) example_net
     (example_request\<lparr>json := example_payload\<lparr>type_field := Some ''proposal_vetoed''\<rparr>\<rparr>)
     example_env =
    \<lparr>resp = \<lparr>status = 400, body = Some [(''error'', JString ''Invalid notification type.'')]\<rparr>,
     statements = [], waves = []\<rparr>"
proof -
  let ?r = "example_request\<lparr>json := example_payload\<lparr>type_field := Some ''proposal_vetoed''\<rparr>\<rparr>"
  have unknown: "\<not> accepted_type (type_field (json ?r))"
    by (simp add: accepted_type_def)
  have passes: "param_chainId ?r = Some ''osmosis-1'' \<and> ''osmosis-1'' \<noteq> [] \<and>
      param_dao ?r = Some ''dao1abc'' \<and> ''dao1abc'' \<noteq> [] \<and>
      apiKey (json ?r) = Some (NOTIFY_API_KEY example_env)"
    by (simp add: example_request_def example_payload_def example_env_def)
  from C5_unknown_type [OF unknown, of "\<lambda>s. s" example_net example_env] passes
  have "statements (notify (\<lambda>s. s) example_net ?r example_env) = []"
    and "waves (notify (\<lambda>s. s) example_net ?r example_env) = []"
    and "resp (notify (\<lambda>s. s) example_net ?r example_env) =
      \<lparr>status = 400, body = Some [(''error'', JString ''Invalid notification type.'')]\<rparr>"
    by blast+
  then show ?thesis
    by (cases "notify (\<lambda>s. s) example_net ?r example_env") simp
qed

text \<open>
  \<^bold>\<open>C6\<close>. With both parameters present and an \<open>apiKey\<close> that is not the
  configured secret (a missing one included), the response is 401 \<open>Invalid API key.\<close>; the
  key is read from the parsed body, no statement is run on the store and no wave is started,
  whatever the store holds for the DAO.
\<close>

theorem C6_invalid_api_key:
  assumes "param_chainId request = Some c" and "c \<noteq> []"
    and "param_dao request = Some d" and "d \<noteq> []"
    and "apiKey (json request) \<noteq> Some (NOTIFY_API_KEY env)"
  shows "notify rm net request env =
    \<lparr>resp = \<lparr>status = 401, body = Some [(''error'', JString ''Invalid API key.'')]\<rparr>,
     statements = [], waves = []\<rparr>"
  using assms by (simp add: notify_def Let_def returns_def respondError_def respond_def)

theorem C6_invalid_api_key_witness:
  "registrations_of example_env ''osmosis-1'' ''dao1abc'' \<noteq> [] \<and>
   notify (\<lambda>s. s) example_net
     (example_request\<lparr>json := example_payload\<lparr>apiKey := Some ''guess''\<rparr>\<rparr>) example_env =
    \<lparr>resp = \<lparr>status = 401, body = Some [(''error'', JString ''Invalid API key.'')]\<rparr>,
     statements = [], waves = []\<rparr>"
  using C6_invalid_api_key [where request = "example_request\<lparr>json := example_payload\<lparr>apiKey := Some ''guess''\<rparr>\<rparr>"
      and c = "''osmosis-1''" and d = "''dao1abc''" and env = example_env and rm = "\<lambda>s. s"
      and net = example_net]
  by (simp add: example_lookup example_registrations_def)
     (simp add: example_request_def example_env_def)

text \<open>
  \<^bold>\<open>C7\<close>. The claim: for a sanitized description of more than 500 characters
  the description used is its first 500 characters followed by \<open>...\<close>, so that the
  description segment of the rendered message is exactly 500 units of sanitized text plus the
  marker; shorter ones are left as they are.

  What holds: the text given to the template is the first 500 characters of the sanitized
  text followed by \<open>...\<close>, 503 characters, when the sanitized text has more than 500, and
  the sanitized text itself otherwise; the segment of the message is that text escaped, then
  trimmed, then with a quote marker after every line feed, and reads back as the trimmed text
  with those markers. The counterexample has two sanitized texts of 501 characters: 501
  letters, whose segment is 500 letters and three escaped dots, 506 characters; and a space
  before 500 letters, whose segment is 499 letters and three escaped dots.
\<close>

theorem C7_truncation:
  "let s = rm description; used = sanitizedDescription rm description
   in (500 < length s \<longrightarrow> used = take 500 s @ ''...'' \<and> length used = 503)
    \<and> (length s \<le> 500 \<longrightarrow> used = s)
    \<and> quoted_description used =
        concat (map (\<lambda>c. if c = newline then [newline, CHR ''>''] else [c])
          (escapeMarkdownV2 (trim used)))
    \<and> (\<forall>rest. tokens (quoted_description used @ rest) = quoted_tokens (trim used) @ tokens rest)"
proof -
  let ?s = "rm description"
  let ?used = "sanitizedDescription rm description"
  have long: "500 < length ?s \<longrightarrow> ?used = take 500 ?s @ ''...'' \<and> length ?used = 503"
    by (simp add: sanitizedDescription_def MAX_DESCRIPTION_LENGTH_def)
  have short: "length ?s \<le> 500 \<longrightarrow> ?used = ?s"
    by (simp add: sanitizedDescription_def MAX_DESCRIPTION_LENGTH_def)
  have segment: "quoted_description ?used =
        concat (map (\<lambda>c. if c = newline then [newline, CHR ''>''] else [c])
          (escapeMarkdownV2 (trim ?used)))"
    by (rule quoted_description_eq)
  show ?thesis
    unfolding Let_def using long short segment tokens_quoted_description by blast
qed

theorem C7_truncation_witness:
  "sanitizedDescription (\<lambda>s. s) (replicate 501 (CHR ''a'')) = replicate 500 (CHR ''a'') @ ''...''"
  using C7_truncation [of "\<lambda>s. s" "replicate 501 (CHR ''a'')"]
  by (simp add: Let_def)

theorem C7_rendered_counterexample:
  "length (replicate 501 (CHR ''a'')) = 501
   \<and> quoted_description (sanitizedDescription (\<lambda>s. s) (replicate 501 (CHR ''a'')))
       = replicate 500 (CHR ''a'') @ [backslash, CHR ''.'', backslash, CHR ''.'', backslash, CHR ''.'']
   \<and> length (quoted_description (sanitizedDescription (\<lambda>s. s) (replicate 501 (CHR ''a'')))) = 506
   \<and> length (CHR '' '' # replicate 500 (CHR ''a'')) = 501
   \<and> quoted_description (sanitizedDescription (\<lambda>s. s) (CHR '' '' # replicate 500 (CHR ''a'')))
       = replicate 499 (CHR ''a'') @ [backslash, CHR ''.'', backslash, CHR ''.'', backslash, CHR ''.'']
   \<and> tokens (quoted_description (sanitizedDescription (\<lambda>s. s) (CHR '' '' # replicate 500 (CHR ''a''))))
       = map Lit (replicate 499 (CHR ''a'') @ ''...'')"
proof -
  let ?plain = "replicate 501 (CHR ''a'')"
  let ?raw = "CHR '' '' # replicate 500 (CHR ''a'')"
  let ?dots = "[backslash, CHR ''.'', backslash, CHR ''.'', backslash, CHR ''.'']"
  have a: "\<not> is_white_space (CHR ''a'')" "\<not> escape_class (CHR ''a'')" "CHR ''a'' \<noteq> newline"
    "is_white_space (CHR '' '')" "\<not> is_white_space (CHR ''.'')"
    by (simp_all add: is_white_space_def escape_class_def newline_def)
  have esc: "escapeMarkdownV2 (replicate n (CHR ''a'') @ ''...'') = replicate n (CHR ''a'') @ ?dots" for n
    using a by (induction n) (simp_all add: escape_class_def)
  have quoted: "concat (map (\<lambda>c. if c = newline then newline # ''>'' else [c]) (replicate n (CHR ''a'')))
      = replicate n (CHR ''a'')" for n
    using a by (induction n) simp_all
  have used_plain: "sanitizedDescription (\<lambda>s. s) ?plain = replicate 500 (CHR ''a'') @ ''...''"
    by (simp add: sanitizedDescription_def MAX_DESCRIPTION_LENGTH_def)
  have trimmed_plain: "trim (replicate 500 (CHR ''a'') @ ''...'') = replicate 500 (CHR ''a'') @ ''...''"
    using a by (simp add: trim_def)
  have q_plain: "quoted_description (sanitizedDescription (\<lambda>s. s) ?plain) = replicate 500 (CHR ''a'') @ ?dots"
    unfolding used_plain quoted_description_eq trimmed_plain esc
    by (simp add: quoted) (simp add: newline_def backslash_def)
  have used: "sanitizedDescription (\<lambda>s. s) ?raw = CHR '' '' # replicate 499 (CHR ''a'') @ ''...''"
    by (simp add: sanitizedDescription_def MAX_DESCRIPTION_LENGTH_def)
  have trimmed: "trim (CHR '' '' # replicate 499 (CHR ''a'') @ ''...'') = replicate 499 (CHR ''a'') @ ''...''"
    using a by (simp add: trim_def)
  have q: "quoted_description (sanitizedDescription (\<lambda>s. s) ?raw) = replicate 499 (CHR ''a'') @ ?dots"
    unfolding used quoted_description_eq trimmed esc
    by (simp add: quoted) (simp add: newline_def backslash_def)
  have t: "tokens (quoted_description (sanitizedDescription (\<lambda>s. s) ?raw))
       = map Lit (replicate 499 (CHR ''a'') @ ''...'')"
    using tokens_quoted_description [of "sanitizedDescription (\<lambda>s. s) ?raw" "[]"] a(3)
    unfolding used trimmed by (simp add: quoted_tokens_def newline_def)
  have len: "length (quoted_description (sanitizedDescription (\<lambda>s. s) ?plain)) = 506"
    unfolding q_plain by simp
  show ?thesis
    using q_plain len q t by simp
qed

text \<open>
  \<^bold>\<open>C8\<close>. Whatever the request and the network, a call runs at most one
  statement on the registration store, and any statement it runs is the \<^verbatim>\<open>SELECT\<close> of
  the lookup. A delivery none of whose three attempts resolves leaves three calls of
  \<^verbatim>\<open>fetch\<close> and two lines of \<^verbatim>\<open>console.error\<close>, and returns false: nothing
  else.
\<close>

theorem C8_store_only_read:
  "(\<forall>s \<in> set (statements (notify rm net request env)). sql s = lookup_sql)
   \<and> length (statements (notify rm net request env)) \<le> 1
   \<and> take 6 lookup_sql = ''SELECT''
   \<and> (first_success (net j) = None \<longrightarrow>
        (\<exists>err. deliver net env text j dst =
           \<lparr>target = dst,
            events = [Fetch (sendMessage_url env) (sendMessage_body text dst),
                      Fetch (sendMessage_url env) (sendMessage_body text dst),
                      Fetch (sendMessage_url env) (sendMessage_body text dst),
                      ConsoleError dst err, ConsoleError dst err],
            returned = Some False\<rparr>))"
proof -
  have a: "\<forall>s \<in> set (statements (notify rm net request env)). sql s = lookup_sql"
    using notify_statements [of rm net request env] by (auto simp: lookup_def)
  have b: "length (statements (notify rm net request env)) \<le> 1"
    using notify_statements [of rm net request env] by auto
  have c: "take 6 lookup_sql = ''SELECT''"
    by (simp add: lookup_sql_def)
  show ?thesis
    using a b c deliver_exhausted [of net j env "text" dst] by blast
qed

theorem C8_store_only_read_witness:
  "statements (notify (\<lambda>s. s) example_net example_request example_env)
     = [\<lparr>sql = lookup_sql, binds = [''osmosis-1'', ''dao1abc'']\<rparr>]
   \<and> first_success (example_net 2) = None
   \<and> returned (deliver example_net example_env ''hello'' 2 (''-1001234567890'', None)) = Some False"
proof -
  have none: "first_success (example_net 2) = None"
    by (simp add: first_success_def example_net_def)
  have st: "statements (notify (\<lambda>s. s) example_net example_request example_env)
     = [\<lparr>sql = lookup_sql, binds = [''osmosis-1'', ''dao1abc'']\<rparr>]"
    by (simp add: notify_accepted [OF example_accepted] lookup_def)
  from C8_store_only_read [of "\<lambda>s. s" example_net example_request example_env 2 "''hello''"
      "(''-1001234567890'', None)"] none st
  show ?thesis
    by auto
qed

text \<open>
  \<^bold>\<open>C9\<close>. The first attempt that resolves, with any status, ends the task: the
  task has called \<^verbatim>\<open>fetch\<close> once for that attempt and once for each rejected attempt
  before it, logs the status and returns true; a task returns true exactly when one of its
  three attempts resolves, whatever the status of the response; and the count of the response
  is the number of destinations with such an attempt.
\<close>

theorem C9_resolved_is_success:
  assumes "param_chainId request = Some c" and "c \<noteq> []"
    and "param_dao request = Some d" and "d \<noteq> []"
    and "apiKey (json request) = Some (NOTIFY_API_KEY env)"
    and "accepted_type (type_field (json request))"
  shows "(\<forall>j dst text k st txt. first_success (net j) = Some k \<and> net j k = Resolved st txt \<longrightarrow>
            deliver net env text j dst =
              \<lparr>target = dst,
               events = replicate k (Fetch (sendMessage_url env) (sendMessage_body text dst)) @
                        [ConsoleLog dst st (case txt of None \<Rightarrow> [] | Some t \<Rightarrow> t)],
               returned = Some True\<rparr>)
       \<and> (\<forall>j dst text. returned (deliver net env text j dst) =
            Some (\<exists>k\<in>{1, 2, 3}. \<exists>st txt. net j k = Resolved st txt))
       \<and> resp (notify rm net request env) =
           \<lparr>status = 200,
            body = Some [(''success'', JBool True),
              (''count'', JNumber (length (filter
                 (\<lambda>j. \<exists>k\<in>{1, 2, 3}. \<exists>st txt. net j k = Resolved st txt)
                 [0..<length (registrations_of env c d)])))]\<rparr>"
proof -
  note out = notify_accepted [OF assms, of rm net]
  have a: "\<forall>j dst text k st txt. first_success (net j) = Some k \<and> net j k = Resolved st txt \<longrightarrow>
            deliver net env text j dst =
              \<lparr>target = dst,
               events = replicate k (Fetch (sendMessage_url env) (sendMessage_body text dst)) @
                        [ConsoleLog dst st (case txt of None \<Rightarrow> [] | Some t \<Rightarrow> t)],
               returned = Some True\<rparr>"
    using deliver_resolved by blast
  have b: "\<forall>j dst text. returned (deliver net env text j dst) =
            Some (\<exists>k\<in>{1, 2, 3}. \<exists>st txt. net j k = Resolved st txt)"
    by (simp add: deliver_returned succeeds_iff)
  have c: "resp (notify rm net request env) =
           \<lparr>status = 200,
            body = Some [(''success'', JBool True),
              (''count'', JNumber (length (filter
                 (\<lambda>j. \<exists>k\<in>{1, 2, 3}. \<exists>st txt. net j k = Resolved st txt)
                 [0..<length (registrations_of env c d)])))]\<rparr>"
    unfolding out count_succeeded by (simp add: respond_def succeeds_iff [abs_def])
  show ?thesis
    using a b c by blast
qed

theorem C9_resolved_is_success_witness:
  "example_net 1 3 = Resolved 403 None
   \<and> deliver example_net example_env ''hello'' 1 (''100'', Some ''7'') =
       \<lparr>target = (''100'', Some ''7''),
        events = replicate 3 (Fetch (sendMessage_url example_env)
                   (sendMessage_body ''hello'' (''100'', Some ''7''))) @
                 [ConsoleLog (''100'', Some ''7'') 403 []],
        returned = Some True\<rparr>"
proof -
  have r: "example_net 1 3 = Resolved 403 None"
    by (simp add: example_net_def)
  have f: "first_success (example_net 1) = Some 3"
    by (simp add: first_success_def example_net_def)
  from C9_resolved_is_success [OF example_accepted, where rm = "\<lambda>s. s" and net = example_net] r f
  show ?thesis
    by simp
qed

text \<open>
  \<^bold>\<open>C10\<close>. The claim: \<^verbatim>\<open>chat_id\<close> and \<^verbatim>\<open>message_thread_id\<close> are
  the integers the stored decimal strings denote, for every identifier of the signed 64-bit
  range. \<^verbatim>\<open>Number\<close> gives a double: the counterexample is \<open>2 ^ 53 + 1\<close>, well inside
  the 64-bit range, which becomes \<open>2 ^ 53\<close>. What holds: an identifier that a double holds
  exactly is passed on as its value, a thread that is \<^verbatim>\<open>null\<close> as no thread; every
  integer of magnitude at most \<open>2 ^ 53\<close> is held exactly; and the strings the repository
  writes to the store denote the integers they were made from.
\<close>

theorem C10_identifiers_preserved:
  assumes "decimal_integer chatId = Some n" and "exact_double n"
  shows "chat_id (sendMessage_body text (chatId, thread)) = Finite n
       \<and> (thread = None \<longrightarrow> message_thread_id (sendMessage_body text (chatId, thread)) = None)
       \<and> (\<forall>t k. thread = Some t \<and> decimal_integer t = Some k \<and> exact_double k \<longrightarrow>
            message_thread_id (sendMessage_body text (chatId, thread)) = Some (Finite k))
       \<and> (\<forall>i. \<bar>i\<bar> \<le> 2 ^ 53 \<longrightarrow> exact_double i)
       \<and> (\<forall>i. decimal_integer (BigInt_toString i) = Some i)"
proof -
  have a: "chat_id (sendMessage_body text (chatId, thread)) = Finite n"
    using assms by (simp add: sendMessage_body_def Number_decimal round_to_double_exact_double)
  have b: "thread = None \<longrightarrow> message_thread_id (sendMessage_body text (chatId, thread)) = None"
    by (simp add: sendMessage_body_def)
  have c: "message_thread_id (sendMessage_body text (chatId, thread)) = Some (Finite k)"
    if "thread = Some t" and "decimal_integer t = Some k" and "exact_double k" for t k
  proof -
    have "t \<noteq> []"
      using decimal_integer_no_white_space [OF that(2)] by simp
    then show ?thesis
      using that by (simp add: sendMessage_body_def Number_decimal round_to_double_exact_double)
  qed
  show ?thesis
    using a b c exact_double_small decimal_integer_BigInt_toString by blast
qed

theorem C10_identifiers_preserved_witness:
  "chat_id (sendMessage_body ''hello'' (''-1001234567890'', Some ''7'')) = Finite (- 1001234567890)
   \<and> message_thread_id (sendMessage_body ''hello'' (''-1001234567890'', Some ''7'')) = Some (Finite 7)"
proof -
  have chat: "decimal_integer ''-1001234567890'' = Some (- 1001234567890)"
    by (simp add: decimal_integer_def is_digit_def digits_value_def digit_value_def)
  have thread: "decimal_integer ''7'' = Some 7"
    by (simp add: decimal_integer_def is_digit_def digits_value_def digit_value_def)
  have small: "exact_double (- 1001234567890)" "exact_double 7"
    by (simp_all add: exact_double_small)
  from C10_identifiers_preserved [OF chat small(1), of "''hello''" "Some ''7''"] thread small(2)
  show ?thesis
    by simp
qed

theorem C10_large_identifier_counterexample:
  "decimal_integer ''9007199254740993'' = Some 9007199254740993
   \<and> (9007199254740993 :: int) < 2 ^ 63
   \<and> \<not> exact_double 9007199254740993
   \<and> chat_id (sendMessage_body ''hello'' (''9007199254740993'', None)) = Finite 9007199254740992"
proof -
  have d: "decimal_integer ''9007199254740993'' = Some 9007199254740993"
    by (simp add: decimal_integer_def is_digit_def digits_value_def digit_value_def)
  have b: "bit_length 9007199254740993 = 54"
    by (simp add: bit_length.simps)
  have r: "round_to_double 9007199254740993 = Finite 9007199254740992"
    by (simp add: round_to_double_def Let_def b)
  have e: "\<not> exact_double 9007199254740993"
    by (simp add: exact_double_def Let_def b)
  show ?thesis
    using d r e by (simp add: sendMessage_body_def Number_decimal [OF d])
qed

end
